theory Spec2Isabelle
  imports Main
begin

section \<open>Go values used by the tokenize package\<close>

text \<open>
  A Go \<open>[]byte\<close> is modelled as \<open>string option\<close>: \<open>None\<close> is the nil slice,
  \<open>Some xs\<close> a non-nil slice holding the bytes \<open>xs\<close> (an Isabelle \<open>char\<close> is one
  byte). The difference matters: \<open>LineStartSplitFunc\<close> tests \<open>token != nil\<close>, and
  \<open>bufio.Scanner\<close> takes any non-nil token, also an empty one, as a token.
  Go's \<open>int\<close> is modelled as \<open>int\<close>; no arithmetic of the package can overflow on
  offsets into a buffer.
\<close>

type_synonym bytes = "string option"

definition golen :: "bytes \<Rightarrow> int" where
  "golen d = (case d of None \<Rightarrow> 0 | Some xs \<Rightarrow> int (length xs))"

definition bytesOf :: "bytes \<Rightarrow> string" where
  "bytesOf d = (case d of None \<Rightarrow> [] | Some xs \<Rightarrow> xs)"

datatype panic = SliceBoundsOutOfRange

text \<open>
  The slice expression \<open>d[lo:hi]\<close>. It panics when the bounds are not
  \<open>0 \<le> lo \<le> hi \<le> len(d)\<close> (the capacity of a buffer is taken to be its length);
  a slice of the nil slice is nil.
\<close>

definition region :: "bytes \<Rightarrow> int \<Rightarrow> int \<Rightarrow> bytes" where
  "region d lo hi = map_option (\<lambda>xs. take (nat (hi - lo)) (drop (nat lo) xs)) d"

definition goSlice :: "bytes \<Rightarrow> int \<Rightarrow> int \<Rightarrow> panic + bytes" where
  "goSlice d lo hi =
     (if 0 \<le> lo \<and> lo \<le> hi \<and> hi \<le> golen d then Inr (region d lo hi)
      else Inl SliceBoundsOutOfRange)"

datatype error =
    OnlyOnePatternError
  | PatternWithNopEncodingError
  | CompileLineEndRegexError string
  | CompileLineStartRegexError string
  | UnreachableError
  | TransformError string

type_synonym splitResult = "int \<times> bytes \<times> error option"

type_synonym splitFunc = "bytes \<Rightarrow> bool \<Rightarrow> panic + splitResult"

type_synonym trimFunc = "bytes \<Rightarrow> bytes"

section \<open>Library functions the package calls\<close>

text \<open>
  \<open>bytes.Index(s, sep)\<close>: the offset of the first instance of \<open>sep\<close> in \<open>s\<close>,
  \<open>-1\<close> when there is none, \<open>0\<close> for an empty \<open>sep\<close>.
\<close>

primrec bytesIndex :: "string \<Rightarrow> string \<Rightarrow> int" where
  "bytesIndex [] sep = (if sep = [] then 0 else - 1)"
| "bytesIndex (c # s) sep =
     (if take (length sep) (c # s) = sep then 0
      else (let i = bytesIndex s sep in if i < 0 then - 1 else i + 1))"

text \<open>
  What "\<open>sep\<close> first occurs in \<open>s\<close> at offset \<open>i\<close>" means; \<open>bytesIndex\<close> is shown
  below to return exactly this offset.
\<close>

definition firstOccurrenceAt :: "string \<Rightarrow> string \<Rightarrow> nat \<Rightarrow> bool" where
  "firstOccurrenceAt s sep i =
     (i + length sep \<le> length s \<and> take (length sep) (drop i s) = sep \<and>
      (\<forall>j < i. take (length sep) (drop j s) \<noteq> sep))"

text \<open>
  \<open>bytes.TrimSuffix(s, suffix)\<close>: \<open>s\<close> without the trailing \<open>suffix\<close> when it ends
  with it, \<open>s\<close> itself otherwise.
\<close>

definition bytesTrimSuffix :: "bytes \<Rightarrow> string \<Rightarrow> bytes" where
  "bytesTrimSuffix s suffix =
     (case s of
        None \<Rightarrow> None
      | Some xs \<Rightarrow>
          if length suffix \<le> length xs \<and> drop (length xs - length suffix) xs = suffix
          then Some (take (length xs - length suffix) xs)
          else Some xs)"

text \<open>
  \<open>bytes.TrimLeft\<close> and \<open>bytes.TrimRight\<close> for an ASCII cutset. \<open>TrimLeft\<close> hands
  back nil when nothing is left; \<open>TrimRight\<close> hands back its (possibly nil) argument when
  that is empty and a non-nil prefix of it otherwise. The package replaces a nil result by
  \<open>[]byte{}\<close>, so no result below depends on which of the two the library returns.
\<close>

definition bytesTrimLeft :: "bytes \<Rightarrow> string \<Rightarrow> bytes" where
  "bytesTrimLeft s cutset =
     (case s of
        None \<Rightarrow> None
      | Some xs \<Rightarrow>
          (let r = dropWhile (\<lambda>c. c \<in> set cutset) xs in if r = [] then None else Some r))"

definition bytesTrimRight :: "bytes \<Rightarrow> string \<Rightarrow> bytes" where
  "bytesTrimRight s cutset =
     (case s of
        None \<Rightarrow> None
      | Some xs \<Rightarrow> Some (rev (dropWhile (\<lambda>c. c \<in> set cutset) (rev xs))))"

text \<open>
  A compiled \<open>*regexp.Regexp\<close> is used through \<open>FindIndex\<close> only: the location
  \<open>(start, end)\<close> of the leftmost match in the bytes searched, or nil. The regular
  expression engine is a parameter; \<open>validRegexp\<close> is what \<open>FindIndex\<close> promises
  about the offsets it returns.
\<close>

type_synonym regexp = "string \<Rightarrow> (int \<times> int) option"

definition validRegexp :: "regexp \<Rightarrow> bool" where
  "validRegexp re =
     (\<forall>d. case re d of None \<Rightarrow> True
          | Some (s, e) \<Rightarrow> 0 \<le> s \<and> s \<le> e \<and> e \<le> int (length d))"

text \<open>
  \<open>FindIndex\<close> of a pattern that consists of literal characters only, such as \<open>;\<close>:
  the leftmost occurrence of the literal.
\<close>

definition literalRegexp :: "string \<Rightarrow> regexp" where
  "literalRegexp lit d =
     (let i = bytesIndex d lit in if i < 0 then None else Some (i, i + int (length lit)))"

text \<open>
  An \<open>encoding.Encoding\<close>: \<open>encoding.Nop\<close>, or a character set given by what its
  encoder's \<open>Transform\<close> writes for a source text (the bytes written and the error).
  The encoder of \<open>encoding.Nop\<close> copies its input.
\<close>

datatype encoding = Nop | Charset "string \<Rightarrow> string \<times> error option"

definition encoderTransform :: "encoding \<Rightarrow> string \<Rightarrow> string \<times> error option" where
  "encoderTransform enc src = (case enc of Nop \<Rightarrow> (src, None) | Charset f \<Rightarrow> f src)"

section \<open>multiline.go\<close>

definition encodedNewline :: "encoding \<Rightarrow> string \<times> error option" where
  "encodedNewline enc = encoderTransform enc [CHR 0x0A]"

definition encodedCarriageReturn :: "encoding \<Rightarrow> string \<times> error option" where
  "encodedCarriageReturn enc = encoderTransform enc [CHR 0x0D]"

subsection \<open>Trim functions\<close>

definition whitespaceCutset :: string where
  "whitespaceCutset = [CHR 0x0D, CHR 0x0A, CHR 0x09, CHR '' '']"

definition noTrim :: trimFunc where
  "noTrim token = token"

definition trimLeadingWhitespacesFunc :: trimFunc where
  "trimLeadingWhitespacesFunc data =
     (let token = bytesTrimLeft data whitespaceCutset
      in if token = None then Some [] else token)"

definition trimTrailingWhitespacesFunc :: trimFunc where
  "trimTrailingWhitespacesFunc data =
     (let token = bytesTrimRight data whitespaceCutset
      in if token = None then Some [] else token)"

definition trimWhitespacesFunc :: trimFunc where
  "trimWhitespacesFunc data = trimLeadingWhitespacesFunc (trimTrailingWhitespacesFunc data)"

definition getTrimFunc :: "bool \<Rightarrow> bool \<Rightarrow> trimFunc" where
  "getTrimFunc preserveLeadingWhitespaces preserveTrailingWhitespaces =
     (if preserveLeadingWhitespaces \<and> preserveTrailingWhitespaces then noTrim
      else if preserveLeadingWhitespaces then trimTrailingWhitespacesFunc
      else if preserveTrailingWhitespaces then trimLeadingWhitespacesFunc
      else trimWhitespacesFunc)"

subsection \<open>The four split functions\<close>

text \<open>
  Each returns \<open>Inr (advance, token, err)\<close>, or \<open>Inl\<close> the panic of a slice expression
  out of bounds.
\<close>

definition LineStartSplitFunc :: "regexp \<Rightarrow> bool \<Rightarrow> trimFunc \<Rightarrow> splitFunc" where
  "LineStartSplitFunc re flushAtEOF trimFunc data atEOF =
     (case re (bytesOf data) of
        None \<Rightarrow>
          if golen data \<noteq> 0 \<and> atEOF \<and> flushAtEOF
          then Inr (golen data, trimFunc data, None)
          else Inr (0, None, None)
      | Some (firstMatchStart, firstMatchEnd) \<Rightarrow>
          (case (if firstMatchStart \<noteq> 0
                 then (case goSlice data 0 firstMatchStart of
                         Inl p \<Rightarrow> Inl p
                       | Inr prefix \<Rightarrow> Inr (trimFunc prefix))
                 else Inr None) of
             Inl p \<Rightarrow> Inl p
           | Inr token \<Rightarrow>
               if firstMatchStart \<noteq> 0 \<and> token \<noteq> None
               then Inr (firstMatchStart, token, None)
               else if firstMatchEnd = golen data then Inr (0, None, None)
               else if atEOF \<and> flushAtEOF then Inr (golen data, trimFunc data, None)
               else
                 (let secondLocOfset = firstMatchEnd + 1 in
                  case goSlice data secondLocOfset (golen data) of
                    Inl p \<Rightarrow> Inl p
                  | Inr rest \<Rightarrow>
                      (case re (bytesOf rest) of
                         None \<Rightarrow> Inr (0, None, None)
                       | Some (secondLocStart, secondLocEnd) \<Rightarrow>
                           (let secondMatchStart = secondLocStart + secondLocOfset in
                            case goSlice data firstMatchStart secondMatchStart of
                              Inl p \<Rightarrow> Inl p
                            | Inr payload \<Rightarrow>
                                Inr (secondMatchStart, trimFunc payload, None))))))"

definition LineEndSplitFunc :: "regexp \<Rightarrow> bool \<Rightarrow> trimFunc \<Rightarrow> splitFunc" where
  "LineEndSplitFunc re flushAtEOF trimFunc data atEOF =
     (case re (bytesOf data) of
        None \<Rightarrow>
          if golen data \<noteq> 0 \<and> atEOF \<and> flushAtEOF
          then Inr (golen data, trimFunc data, None)
          else Inr (0, None, None)
      | Some (locStart, locEnd) \<Rightarrow>
          if locEnd = golen data - 1 \<and> \<not> atEOF then Inr (0, None, None)
          else (case goSlice data 0 locEnd of
                  Inl p \<Rightarrow> Inl p
                | Inr payload \<Rightarrow> Inr (locEnd, trimFunc payload, None)))"

text \<open>The closure \<open>NewlineSplitFunc\<close> returns, over the two encoded delimiters.\<close>

definition newlineSplit :: "string \<Rightarrow> string \<Rightarrow> bool \<Rightarrow> trimFunc \<Rightarrow> splitFunc" where
  "newlineSplit newline carriageReturn flushAtEOF trimFunc data atEOF =
     (if atEOF \<and> golen data = 0 then Inr (0, None, None)
      else
        (let i = bytesIndex (bytesOf data) newline in
         if i \<ge> 0
         then (case goSlice data 0 i of
                 Inl p \<Rightarrow> Inl p
               | Inr line \<Rightarrow>
                   Inr (i + int (length newline),
                        trimFunc (bytesTrimSuffix line carriageReturn), None))
         else if atEOF \<and> flushAtEOF then Inr (golen data, trimFunc data, None)
         else Inr (0, None, None)))"

definition NewlineSplitFunc :: "encoding \<Rightarrow> bool \<Rightarrow> trimFunc \<Rightarrow> error + splitFunc" where
  "NewlineSplitFunc enc flushAtEOF trimFunc =
     (case encodedNewline enc of
        (newline, Some err) \<Rightarrow> Inl err
      | (newline, None) \<Rightarrow>
          (case encodedCarriageReturn enc of
             (carriageReturn, Some err) \<Rightarrow> Inl err
           | (carriageReturn, None) \<Rightarrow>
               Inr (newlineSplit newline carriageReturn flushAtEOF trimFunc)))"

definition NoSplitFunc :: "int \<Rightarrow> splitFunc" where
  "NoSplitFunc maxLogSize data atEOF =
     (if golen data \<ge> maxLogSize
      then (case goSlice data 0 maxLogSize of
              Inl p \<Rightarrow> Inl p
            | Inr token \<Rightarrow> Inr (maxLogSize, token, None))
      else if \<not> atEOF then Inr (0, None, None)
      else if golen data = 0 then Inr (0, None, None)
      else Inr (golen data, data, None))"

subsection \<open>Building a split function from a configuration\<close>

record MultilineConfig =
  LineStartPattern :: string
  LineEndPattern :: string

definition NewMultilineConfig :: MultilineConfig where
  "NewMultilineConfig = \<lparr>LineStartPattern = [], LineEndPattern = []\<rparr>"

text \<open>
  \<open>regexp.Compile\<close> is a parameter: it gives the compiled expression or the message of
  its syntax error.
\<close>

text \<open>
  \<open>regexp.Compile\<close> on the expressions \<open>getSplitFunc\<close> hands it when the configured
  pattern consists of literal characters only: the flag group \<open>(?m)\<close> followed by the
  literal.
\<close>

definition literalCompile :: "string \<Rightarrow> string + regexp" where
  "literalCompile expr =
     (if take 4 expr = ''(?m)'' then Inr (literalRegexp (drop 4 expr))
      else Inr (literalRegexp expr))"

definition getSplitFunc ::
  "(string \<Rightarrow> string + regexp) \<Rightarrow> MultilineConfig \<Rightarrow> encoding \<Rightarrow> bool \<Rightarrow> int \<Rightarrow> bool \<Rightarrow> bool
     \<Rightarrow> error + splitFunc" where
  "getSplitFunc regexpCompile c enc flushAtEOF maxLogSize
       preserveLeadingWhitespaces preserveTrailingWhitespaces =
     (let endPattern = LineEndPattern c; startPattern = LineStartPattern c in
      if endPattern \<noteq> [] \<and> startPattern \<noteq> [] then Inl OnlyOnePatternError
      else if enc = Nop \<and> (endPattern \<noteq> [] \<or> startPattern \<noteq> [])
      then Inl PatternWithNopEncodingError
      else if enc = Nop then Inr (NoSplitFunc maxLogSize)
      else if endPattern = [] \<and> startPattern = []
      then NewlineSplitFunc enc flushAtEOF
             (getTrimFunc preserveLeadingWhitespaces preserveTrailingWhitespaces)
      else if endPattern \<noteq> []
      then (case regexpCompile (''(?m)'' @ LineEndPattern c) of
              Inl err \<Rightarrow> Inl (CompileLineEndRegexError err)
            | Inr re \<Rightarrow>
                Inr (LineEndSplitFunc re flushAtEOF
                       (getTrimFunc preserveLeadingWhitespaces preserveTrailingWhitespaces)))
      else if startPattern \<noteq> []
      then (case regexpCompile (''(?m)'' @ LineStartPattern c) of
              Inl err \<Rightarrow> Inl (CompileLineStartRegexError err)
            | Inr re \<Rightarrow>
                Inr (LineStartSplitFunc re flushAtEOF
                       (getTrimFunc preserveLeadingWhitespaces preserveTrailingWhitespaces)))
      else Inl UnreachableError)"

definition Build ::
  "(string \<Rightarrow> string + regexp) \<Rightarrow> MultilineConfig \<Rightarrow> encoding \<Rightarrow> bool \<Rightarrow> bool \<Rightarrow> bool \<Rightarrow> int
     \<Rightarrow> error + splitFunc" where
  "Build regexpCompile c enc flushAtEOF preserveLeadingWhitespaces preserveTrailingWhitespaces
       maxLogSize =
     getSplitFunc regexpCompile c enc flushAtEOF maxLogSize
       preserveLeadingWhitespaces preserveTrailingWhitespaces"

section \<open>Facts about the library functions\<close>

lemma golen_nonneg: "0 \<le> golen d"
  by (simp add: golen_def split: option.splits)

lemma golen_bytesOf: "int (length (bytesOf d)) = golen d"
  by (simp add: golen_def bytesOf_def split: option.splits)

lemma goSlice_in_bounds:
  "0 \<le> lo \<Longrightarrow> lo \<le> hi \<Longrightarrow> hi \<le> golen d \<Longrightarrow> goSlice d lo hi = Inr (region d lo hi)"
  by (simp add: goSlice_def)

lemma bytesOf_region:
  "bytesOf (region d lo hi) = take (nat (hi - lo)) (drop (nat lo) (bytesOf d))"
  by (simp add: region_def bytesOf_def split: option.splits)

lemma golen_region:
  "0 \<le> lo \<Longrightarrow> lo \<le> hi \<Longrightarrow> hi \<le> golen d \<Longrightarrow> golen (region d lo hi) = hi - lo"
  by (auto simp: region_def golen_def split: option.splits)

lemma region_whole: "region d 0 (golen d) = d"
  by (cases d) (simp_all add: region_def golen_def)

text \<open>
  \<open>bytesIndex\<close> returns the offset of the first occurrence, and \<open>-1\<close> exactly when
  there is none.
\<close>

lemma bytesIndex_bound:
  "0 \<le> bytesIndex s sep \<Longrightarrow> bytesIndex s sep + int (length sep) \<le> int (length s)"
proof (induction s)
  case Nil
  then show ?case by (simp split: if_splits)
next
  case (Cons c s)
  show ?case
  proof (cases "take (length sep) (c # s) = sep")
    case True
    then have "length (take (length sep) (c # s)) = length sep"
      by simp
    then have "length sep \<le> length (c # s)"
      by (simp add: min_def split: if_splits)
    with True show ?thesis by simp
  next
    case False
    with Cons show ?thesis by (simp add: Let_def split: if_splits)
  qed
qed

lemma bytesIndex_occurs:
  "0 \<le> bytesIndex s sep \<Longrightarrow> take (length sep) (drop (nat (bytesIndex s sep)) s) = sep"
proof (induction s)
  case Nil
  then show ?case by (simp split: if_splits)
next
  case (Cons c s)
  show ?case
  proof (cases "take (length sep) (c # s) = sep")
    case True
    then show ?thesis by simp
  next
    case False
    with Cons.prems have nn: "0 \<le> bytesIndex s sep"
      by (simp add: Let_def split: if_splits)
    with False have "bytesIndex (c # s) sep = bytesIndex s sep + 1"
      by (simp add: Let_def)
    moreover have "nat (bytesIndex s sep + 1) = Suc (nat (bytesIndex s sep))"
      using nn by simp
    ultimately show ?thesis using Cons.IH [OF nn] by simp
  qed
qed

lemma bytesIndex_first:
  "j < nat (bytesIndex s sep) \<Longrightarrow> take (length sep) (drop j s) \<noteq> sep"
proof (induction s arbitrary: j)
  case Nil
  then show ?case by (simp split: if_splits)
next
  case (Cons c s)
  show ?case
  proof (cases "take (length sep) (c # s) = sep")
    case True
    with Cons.prems show ?thesis by simp
  next
    case False
    note neq = this
    show ?thesis
    proof (cases j)
      case 0
      with neq show ?thesis by simp
    next
      case (Suc k)
      from Cons.prems neq have "0 \<le> bytesIndex s sep"
        by (simp add: Let_def split: if_splits)
      with Cons.prems neq Suc have "k < nat (bytesIndex s sep)"
        by (simp add: Let_def split: if_splits)
      from Cons.IH [OF this] Suc show ?thesis by simp
    qed
  qed
qed

lemma bytesIndex_absent:
  "bytesIndex s sep < 0 \<Longrightarrow> take (length sep) (drop j s) \<noteq> sep"
proof (induction s arbitrary: j)
  case Nil
  then show ?case by (auto split: if_splits)
next
  case (Cons c s)
  then have neq: "take (length sep) (c # s) \<noteq> sep" and neg: "bytesIndex s sep < 0"
    by (auto simp: Let_def split: if_splits)
  show ?case
  proof (cases j)
    case 0
    with neq show ?thesis by simp
  next
    case (Suc k)
    with Cons.IH [OF neg, of k] show ?thesis by simp
  qed
qed

lemma bytesIndex_firstOccurrence:
  assumes "firstOccurrenceAt s sep i"
  shows "bytesIndex s sep = int i"
proof -
  from assms have occ: "take (length sep) (drop i s) = sep"
    and first: "\<And>j. j < i \<Longrightarrow> take (length sep) (drop j s) \<noteq> sep"
    by (auto simp: firstOccurrenceAt_def)
  have nn: "0 \<le> bytesIndex s sep"
    using bytesIndex_absent [of s sep i] occ by force
  define k where "k = nat (bytesIndex s sep)"
  have "\<not> k < i"
    using first [of k] bytesIndex_occurs [OF nn] by (auto simp: k_def)
  moreover have "\<not> i < k"
    using bytesIndex_first [of i s sep] occ by (auto simp: k_def)
  ultimately have "k = i" by simp
  with nn show ?thesis by (simp add: k_def)
qed

lemma firstOccurrence_bytesIndex:
  assumes "0 \<le> bytesIndex s sep"
  shows "firstOccurrenceAt s sep (nat (bytesIndex s sep))"
  using assms bytesIndex_bound [OF assms] bytesIndex_occurs [OF assms] bytesIndex_first [of _ s sep]
  by (auto simp: firstOccurrenceAt_def)

lemma literalRegexp_valid: "validRegexp (literalRegexp lit)"
  unfolding validRegexp_def literalRegexp_def
  using bytesIndex_bound by (auto simp: Let_def)

lemma validRegexpD:
  assumes "validRegexp re" and "re d = Some (s, e)"
  shows "0 \<le> s" and "s \<le> e" and "e \<le> int (length d)"
proof -
  from assms(1) have "case re d of None \<Rightarrow> True
      | Some (s, e) \<Rightarrow> 0 \<le> s \<and> s \<le> e \<and> e \<le> int (length d)"
    unfolding validRegexp_def by blast
  with assms(2) show "0 \<le> s" and "s \<le> e" and "e \<le> int (length d)"
    by simp_all
qed

text \<open>
  The three trimming functions never return nil: whatever \<open>bytes.TrimLeft\<close> and
  \<open>bytes.TrimRight\<close> hand back, a nil result is replaced by \<open>[]byte{}\<close>.
\<close>

lemma trimLeading_Some:
  "trimLeadingWhitespacesFunc d = Some (dropWhile (\<lambda>c. c \<in> set whitespaceCutset) (bytesOf d))"
proof (cases d)
  case None
  then show ?thesis
    by (simp add: trimLeadingWhitespacesFunc_def bytesTrimLeft_def bytesOf_def)
next
  case (Some xs)
  then show ?thesis
    by (cases "dropWhile (\<lambda>c. c \<in> set whitespaceCutset) xs = []")
      (simp_all add: trimLeadingWhitespacesFunc_def bytesTrimLeft_def bytesOf_def Let_def
        del: dropWhile_eq_Nil_conv)
qed

lemma trimTrailing_Some:
  "trimTrailingWhitespacesFunc d =
     Some (rev (dropWhile (\<lambda>c. c \<in> set whitespaceCutset) (rev (bytesOf d))))"
  by (simp add: trimTrailingWhitespacesFunc_def bytesTrimRight_def bytesOf_def Let_def
      split: option.splits)

lemma trimWhitespaces_Some:
  "trimWhitespacesFunc d =
     Some (dropWhile (\<lambda>c. c \<in> set whitespaceCutset)
            (rev (dropWhile (\<lambda>c. c \<in> set whitespaceCutset) (rev (bytesOf d)))))"
  by (simp add: trimWhitespacesFunc_def trimLeading_Some trimTrailing_Some bytesOf_def)

lemma getTrimFunc_not_nil: "d \<noteq> None \<Longrightarrow> getTrimFunc pl pt d \<noteq> None"
  by (simp add: getTrimFunc_def noTrim_def trimLeading_Some trimTrailing_Some
      trimWhitespaces_Some)

section \<open>The Pattern-End-Delimited strategy\<close>

text \<open>
  Claim C1, as amended. With the end pattern \<open>;\<close> and the default whitespace preferences
  (both false), on the buffer \<open>lineA;lineB;\<close> the first call returns the token
  \<open>lineA;\<close> with \<open>advance = 6\<close>, and the next call, on the remaining buffer
  \<open>lineB;\<close>, returns the token \<open>lineB;\<close> with \<open>advance = 6\<close>: each token ends with
  the \<open>;\<close> that terminates it, and each call advances past that \<open>;\<close>. This holds for
  either value of \<open>atEOF\<close> and of \<open>flushAtEOF\<close>.
\<close>

theorem LineEndSplitFunc_semicolon_tokens:
  "LineEndSplitFunc (literalRegexp '';'') flushAtEOF (getTrimFunc False False)
     (Some ''lineA;lineB;'') atEOF = Inr (6, Some ''lineA;'', None) \<and>
   goSlice (Some ''lineA;lineB;'') 6 12 = Inr (Some ''lineB;'') \<and>
   LineEndSplitFunc (literalRegexp '';'') flushAtEOF (getTrimFunc False False)
     (Some ''lineB;'') atEOF = Inr (6, Some ''lineB;'', None)"
  by (simp add: LineEndSplitFunc_def literalRegexp_def getTrimFunc_def trimWhitespaces_Some
      whitespaceCutset_def goSlice_def region_def golen_def bytesOf_def)

text \<open>
  Claim C1 as stated names the tokens \<open>lineA\<close> and \<open>lineB\<close>. The token is
  \<open>trimFunc(data[:loc[1]])\<close>, the bytes up to the end of the match, and the trim functions
  remove white space only, so the first token is \<open>lineA;\<close> and not \<open>lineA\<close>.
\<close>

theorem LineEndSplitFunc_semicolon_counterexample:
  "LineEndSplitFunc (literalRegexp '';'') False (getTrimFunc False False)
     (Some ''lineA;lineB;'') False = Inr (6, Some ''lineA;'', None) \<and>
   LineEndSplitFunc (literalRegexp '';'') False (getTrimFunc False False)
     (Some ''lineA;lineB;'') False \<noteq> Inr (6, Some ''lineA'', None)"
  by (simp add: LineEndSplitFunc_def literalRegexp_def getTrimFunc_def trimWhitespaces_Some
      whitespaceCutset_def goSlice_def region_def golen_def bytesOf_def)

text \<open>
  Claim C5. \<open>LineEndSplitFunc\<close>, on a buffer in which the pattern has a first match
  ending at offset \<open>locEnd\<close> (within the buffer, as \<open>FindIndex\<close> reports it): when
  \<open>locEnd = len(data) - 1\<close> and \<open>atEOF\<close> is false the call returns \<open>(0, nil, nil)\<close>;
  in every other case it returns \<open>advance = locEnd\<close> and the token
  \<open>trimFunc(data[:locEnd])\<close>, with no error.
\<close>

theorem LineEndSplitFunc_first_match:
  assumes "re (bytesOf data) = Some (locStart, locEnd)"
    and "0 \<le> locEnd" and "locEnd \<le> golen data"
  shows "LineEndSplitFunc re flushAtEOF trimFunc data atEOF =
     (if locEnd = golen data - 1 \<and> \<not> atEOF then Inr (0, None, None)
      else Inr (locEnd, trimFunc (region data 0 locEnd), None))"
  using assms by (simp add: LineEndSplitFunc_def goSlice_def)

theorem LineEndSplitFunc_first_match_witness:
  "literalRegexp '';'' (bytesOf (Some ''a;b'')) = Some (1, 2) \<and> (0::int) \<le> 2 \<and>
   2 \<le> golen (Some ''a;b'') \<and>
   LineEndSplitFunc (literalRegexp '';'') False noTrim (Some ''a;b'') False = Inr (0, None, None) \<and>
   LineEndSplitFunc (literalRegexp '';'') False noTrim (Some ''a;b'') True
     = Inr (2, Some ''a;'', None)"
proof -
  have m: "literalRegexp '';'' (bytesOf (Some ''a;b'')) = Some (1, 2)"
    by (simp add: literalRegexp_def bytesOf_def)
  have l: "golen (Some ''a;b'') = 3"
    by (simp add: golen_def)
  show ?thesis
    using LineEndSplitFunc_first_match [of "literalRegexp '';''" "Some ''a;b''" 1 2 False noTrim False]
      LineEndSplitFunc_first_match [of "literalRegexp '';''" "Some ''a;b''" 1 2 False noTrim True] m l
    by (simp add: region_def noTrim_def)
qed

section \<open>The Pattern-Start-Delimited strategy\<close>

text \<open>The three stages of \<open>LineStartSplitFunc\<close>, one lemma each.\<close>

lemma LineStartSplitFunc_no_match:
  "re (bytesOf data) = None \<Longrightarrow>
   LineStartSplitFunc re flushAtEOF trimFunc data atEOF =
     (if golen data \<noteq> 0 \<and> atEOF \<and> flushAtEOF then Inr (golen data, trimFunc data, None)
      else Inr (0, None, None))"
  by (simp add: LineStartSplitFunc_def)

lemma LineStartSplitFunc_prefix:
  assumes "re (bytesOf data) = Some (s, e)" and "0 < s" and "s \<le> golen data"
    and "trimFunc (region data 0 s) \<noteq> None"
  shows "LineStartSplitFunc re flushAtEOF trimFunc data atEOF
           = Inr (s, trimFunc (region data 0 s), None)"
  using assms by (simp add: LineStartSplitFunc_def goSlice_def)

lemma LineStartSplitFunc_after_prefix:
  assumes "re (bytesOf data) = Some (s, e)" and "0 \<le> s" and "s \<le> e" and "e \<le> golen data"
    and "s = 0 \<or> trimFunc (region data 0 s) = None"
  shows "LineStartSplitFunc re flushAtEOF trimFunc data atEOF =
     (if e = golen data then Inr (0, None, None)
      else if atEOF \<and> flushAtEOF then Inr (golen data, trimFunc data, None)
      else (case re (bytesOf (region data (e + 1) (golen data))) of
              None \<Rightarrow> Inr (0, None, None)
            | Some (s2, e2) \<Rightarrow>
                (case goSlice data s (s2 + (e + 1)) of
                   Inl p \<Rightarrow> Inl p
                 | Inr payload \<Rightarrow> Inr (s2 + (e + 1), trimFunc payload, None))))"
  using assms by (auto simp: LineStartSplitFunc_def goSlice_def Let_def split: option.splits)

text \<open>
  The comment in the code says "return if non-matching pattern is not only whitespaces",
  and the code tests \<open>token != nil\<close>. But the token of a non-empty prefix is never nil
  under any of the four trim functions \<open>getTrimFunc\<close> can select: \<open>noTrim\<close> returns the
  non-nil prefix, and the other three replace nil by \<open>[]byte{}\<close>. So whenever the first
  match starts after offset 0 the call returns the trimmed prefix, empty or not, and the
  later steps are not reached.
\<close>

lemma getTrimFunc_never_nil_on_prefix:
  "0 < s \<Longrightarrow> s \<le> golen data \<Longrightarrow> getTrimFunc pl pt (region data 0 s) \<noteq> None"
proof -
  assume "0 < s" and "s \<le> golen data"
  then have "data \<noteq> None" by (cases data) (simp_all add: golen_def)
  then have "region data 0 s \<noteq> None" by (simp add: region_def)
  then show ?thesis by (rule getTrimFunc_not_nil)
qed

lemma LineStartSplitFunc_prefix_always_returned:
  assumes "re (bytesOf data) = Some (s, e)" and "0 < s" and "s \<le> golen data"
  shows "LineStartSplitFunc re flushAtEOF (getTrimFunc pl pt) data atEOF
           = Inr (s, getTrimFunc pl pt (region data 0 s), None)"
  using assms getTrimFunc_never_nil_on_prefix [OF assms(2,3), of pl pt]
    LineStartSplitFunc_prefix [of re data s e "getTrimFunc pl pt" flushAtEOF atEOF]
  by simp

text \<open>
  Claim C2 (not met by the code). The claim: when the first match begins at an offset
  \<open>s > 0\<close> and the prefix \<open>data[0:s]\<close> is white space only, the prefix is not emitted and
  the decision falls through to the later steps. The code, with the pattern \<open>START\<close> and
  the default preferences, on the buffer \<open>"  START a START b"\<close>: it returns the empty
  non-nil token with \<open>advance = 2\<close>. The second equation is the same call with a trim
  function that does return nil for a prefix of white space (the two library calls without
  the replacement of nil): there the call falls through, finds the second match and
  returns the token \<open>START a\<close> with \<open>advance = 10\<close>, which is what the claim describes.
\<close>

theorem LineStartSplitFunc_whitespace_prefix_emitted:
  "LineStartSplitFunc (literalRegexp ''START'') False (getTrimFunc False False)
     (Some ''  START a START b'') False = Inr (2, Some [], None) \<and>
   LineStartSplitFunc (literalRegexp ''START'') False
     (\<lambda>d. bytesTrimLeft (bytesTrimRight d whitespaceCutset) whitespaceCutset)
     (Some ''  START a START b'') False = Inr (10, Some ''START a'', None)"
  by (simp add: LineStartSplitFunc_def literalRegexp_def getTrimFunc_def trimWhitespaces_Some
      bytesTrimLeft_def bytesTrimRight_def
      whitespaceCutset_def goSlice_def region_def golen_def bytesOf_def)

text \<open>
  What the code does at a first match that runs to the end of the buffer, once the step
  for the prefix has not returned (the match starts at offset 0, or the trim function
  gave nil for the prefix): \<open>(0, nil, nil)\<close>, whatever \<open>atEOF\<close> and \<open>flushAtEOF\<close> are.
\<close>

lemma LineStartSplitFunc_match_to_end:
  assumes "re (bytesOf data) = Some (s, golen data)" and "0 \<le> s" and "s \<le> golen data"
    and "s = 0 \<or> trimFunc (region data 0 s) = None"
  shows "LineStartSplitFunc re flushAtEOF trimFunc data atEOF = Inr (0, None, None)"
  using assms
    LineStartSplitFunc_after_prefix [of re data s "golen data" trimFunc flushAtEOF atEOF]
  by simp

text \<open>
  Claim C4 (not met by the code on a prefix of white space). The claim: when the first
  match extends to the end of the buffer and no non-empty prefix token was emitted, the
  call returns \<open>(0, nil, nil)\<close> for every \<open>atEOF\<close> and \<open>flushAtEOF\<close>. The code, with the
  pattern \<open>START\<close> and the default preferences, on the buffer \<open>"  START"\<close>: the match
  ends at the end of the buffer and the prefix trims to empty, yet the call returns the
  empty non-nil token with \<open>advance = 2\<close>, for \<open>atEOF\<close> true and false. The third
  equation is the call with a trim function that returns nil for white space: it returns
  \<open>(0, nil, nil)\<close>, as the claim says.
\<close>

theorem LineStartSplitFunc_match_to_end_after_whitespace:
  "LineStartSplitFunc (literalRegexp ''START'') True (getTrimFunc False False)
     (Some ''  START'') True = Inr (2, Some [], None) \<and>
   LineStartSplitFunc (literalRegexp ''START'') False (getTrimFunc False False)
     (Some ''  START'') False = Inr (2, Some [], None) \<and>
   LineStartSplitFunc (literalRegexp ''START'') True
     (\<lambda>d. bytesTrimLeft (bytesTrimRight d whitespaceCutset) whitespaceCutset)
     (Some ''  START'') True = Inr (0, None, None)"
  by (simp add: LineStartSplitFunc_def literalRegexp_def getTrimFunc_def trimWhitespaces_Some
      bytesTrimLeft_def bytesTrimRight_def
      whitespaceCutset_def goSlice_def region_def golen_def bytesOf_def)

section \<open>The Newline-Delimited strategy\<close>

text \<open>
  Claim C6. For an encoding whose encoder gives the newline sequence \<open>newline\<close> and the
  carriage-return sequence \<open>carriageReturn\<close> without error, \<open>NewlineSplitFunc\<close> builds
  a split function \<open>f\<close> such that: on every buffer in which \<open>newline\<close> first occurs at
  offset \<open>i\<close>, \<open>f\<close> returns \<open>advance = i + len(newline)\<close> and the token
  \<open>trimFunc(bytes.TrimSuffix(data[:i], carriageReturn))\<close>, with no error; and on every
  empty buffer with \<open>atEOF\<close> true, \<open>f\<close> returns \<open>(0, nil, nil)\<close>. The two parts meet
  only for an empty newline sequence, which occurs at offset 0 of the empty buffer: the
  code decides that buffer at \<open>atEOF\<close> by its first test, so the first part is stated for
  a non-empty newline sequence or a call that is not the empty buffer at \<open>atEOF\<close>.
\<close>

theorem NewlineSplitFunc_newline_found:
  assumes "encodedNewline enc = (newline, None)"
    and "encodedCarriageReturn enc = (carriageReturn, None)"
  shows "\<exists>f. NewlineSplitFunc enc flushAtEOF trimFunc = Inr f \<and>
     (\<forall>data atEOF i.
        firstOccurrenceAt (bytesOf data) newline i \<and>
        (newline \<noteq> [] \<or> \<not> (atEOF \<and> golen data = 0)) \<longrightarrow>
        f data atEOF =
          Inr (int i + int (length newline),
               trimFunc (bytesTrimSuffix (region data 0 (int i)) carriageReturn), None)) \<and>
     (\<forall>data. golen data = 0 \<longrightarrow> f data True = Inr (0, None, None))"
proof -
  let ?f = "newlineSplit newline carriageReturn flushAtEOF trimFunc"
  have build: "NewlineSplitFunc enc flushAtEOF trimFunc = Inr ?f"
    using assms by (simp add: NewlineSplitFunc_def)
  have found: "?f data atEOF =
      Inr (int i + int (length newline),
           trimFunc (bytesTrimSuffix (region data 0 (int i)) carriageReturn), None)"
    if occ: "firstOccurrenceAt (bytesOf data) newline i"
      and side: "newline \<noteq> [] \<or> \<not> (atEOF \<and> golen data = 0)"
    for data atEOF i
  proof -
    have idx: "bytesIndex (bytesOf data) newline = int i"
      using occ by (rule bytesIndex_firstOccurrence)
    from occ have "int i + int (length newline) \<le> golen data"
      by (simp add: firstOccurrenceAt_def flip: golen_bytesOf)
    then have le: "int i \<le> golen data" and "newline \<noteq> [] \<longrightarrow> golen data \<noteq> 0"
      by (cases newline; simp)+
    with side have guard: "(atEOF \<and> golen data = 0) = False" by blast
    from idx le show ?thesis
      by (simp add: newlineSplit_def goSlice_def Let_def guard)
  qed
  have empty: "?f data True = Inr (0, None, None)" if "golen data = 0" for data
    using that by (simp add: newlineSplit_def)
  from build found empty show ?thesis by blast
qed

text \<open>
  The witness: UTF-16 little endian, where the newline is the two bytes \<open>0A 00\<close>, on the
  buffer holding \<open>a\<close>, carriage return, newline, \<open>b\<close>.
\<close>

theorem NewlineSplitFunc_newline_found_witness:
  "\<exists>f. NewlineSplitFunc (Charset (\<lambda>src. (concat (map (\<lambda>c. [c, CHR 0x00]) src), None)))
          False noTrim = Inr f \<and>
       f (Some [CHR ''a'', CHR 0x00, CHR 0x0D, CHR 0x00, CHR 0x0A, CHR 0x00, CHR ''b'', CHR 0x00])
         False = Inr (6, Some [CHR ''a'', CHR 0x00], None) \<and>
       f (Some []) True = Inr (0, None, None)"
proof -
  let ?enc = "Charset (\<lambda>src. (concat (map (\<lambda>c. [c, CHR 0x00]) src), None))"
  let ?data = "Some [CHR ''a'', CHR 0x00, CHR 0x0D, CHR 0x00, CHR 0x0A, CHR 0x00, CHR ''b'', CHR 0x00]"
  have nl: "encodedNewline ?enc = ([CHR 0x0A, CHR 0x00], None)"
    by (simp add: encodedNewline_def encoderTransform_def)
  have cr: "encodedCarriageReturn ?enc = ([CHR 0x0D, CHR 0x00], None)"
    by (simp add: encodedCarriageReturn_def encoderTransform_def)
  have idx: "bytesIndex (bytesOf ?data) [CHR 0x0A, CHR 0x00] = 4"
    by (simp add: bytesOf_def)
  have occ: "firstOccurrenceAt (bytesOf ?data) [CHR 0x0A, CHR 0x00] 4"
    using firstOccurrence_bytesIndex [of "bytesOf ?data" "[CHR 0x0A, CHR 0x00]"] idx by simp
  from NewlineSplitFunc_newline_found [OF nl cr, of False noTrim]
  obtain f where f: "NewlineSplitFunc ?enc False noTrim = Inr f"
    and found: "\<And>data atEOF i.
        firstOccurrenceAt (bytesOf data) [CHR 0x0A, CHR 0x00] i \<Longrightarrow>
        f data atEOF =
          Inr (int i + int (length [CHR 0x0A, CHR 0x00]),
               noTrim (bytesTrimSuffix (region data 0 (int i)) [CHR 0x0D, CHR 0x00]), None)"
    and empty: "\<And>data. golen data = 0 \<Longrightarrow> f data True = Inr (0, None, None)"
    by auto
  have "f ?data False = Inr (6, Some [CHR ''a'', CHR 0x00], None)"
    using found [OF occ, of False]
    by (simp add: noTrim_def region_def bytesTrimSuffix_def)
  moreover have "f (Some []) True = Inr (0, None, None)"
    by (rule empty) (simp add: golen_def)
  ultimately show ?thesis using f by blast
qed

section \<open>The No-Split strategy\<close>

text \<open>
  Claim C7, as amended. For a maximum size \<open>maxLogSize > 0\<close>, \<open>NoSplitFunc\<close>
  returns the first \<open>maxLogSize\<close> bytes with \<open>advance = maxLogSize\<close> on every buffer
  of at least that length, whatever \<open>atEOF\<close> is; \<open>(0, nil, nil)\<close> on a shorter buffer
  when \<open>atEOF\<close> is false; the whole buffer with \<open>advance = len(data)\<close> on a shorter
  non-empty buffer when \<open>atEOF\<close> is true; and \<open>(0, nil, nil)\<close> on an empty buffer
  when \<open>atEOF\<close> is true.
\<close>

theorem NoSplitFunc_positive_max:
  assumes "0 < maxLogSize"
  shows "(maxLogSize \<le> golen data \<longrightarrow>
            NoSplitFunc maxLogSize data atEOF
              = Inr (maxLogSize, Some (take (nat maxLogSize) (bytesOf data)), None)) \<and>
         (golen data < maxLogSize \<and> \<not> atEOF \<longrightarrow>
            NoSplitFunc maxLogSize data atEOF = Inr (0, None, None)) \<and>
         (golen data < maxLogSize \<and> golen data \<noteq> 0 \<and> atEOF \<longrightarrow>
            NoSplitFunc maxLogSize data atEOF = Inr (golen data, Some (bytesOf data), None)) \<and>
         (golen data = 0 \<and> atEOF \<longrightarrow>
            NoSplitFunc maxLogSize data atEOF = Inr (0, None, None))"
proof (cases data)
  case None
  with assms show ?thesis
    by (simp add: NoSplitFunc_def golen_def)
next
  case (Some xs)
  with assms show ?thesis
    by (simp add: NoSplitFunc_def golen_def bytesOf_def goSlice_def region_def)
qed

theorem NoSplitFunc_positive_max_witness:
  "(0::int) < 2 \<and>
   NoSplitFunc 2 (Some ''abc'') False = Inr (2, Some ''ab'', None) \<and>
   NoSplitFunc 2 (Some ''a'') False = Inr (0, None, None) \<and>
   NoSplitFunc 2 (Some ''a'') True = Inr (1, Some ''a'', None) \<and>
   NoSplitFunc 2 (Some []) True = Inr (0, None, None)"
  using NoSplitFunc_positive_max [of 2 "Some ''abc''" False]
    NoSplitFunc_positive_max [of 2 "Some ''a''" False]
    NoSplitFunc_positive_max [of 2 "Some ''a''" True]
    NoSplitFunc_positive_max [of 2 "Some []" True]
  by (simp add: golen_def bytesOf_def)

text \<open>
  Claim C7 as stated, for every maximum size, fails. With \<open>maxLogSize = 0\<close> the first
  test \<open>len(data) >= maxLogSize\<close> holds for the empty buffer, so at \<open>atEOF\<close> the call
  returns the non-nil empty token \<open>data[:0]\<close> and not "no token"; with a negative
  \<open>maxLogSize\<close> the expression \<open>data[:maxLogSize]\<close> panics.
\<close>

theorem NoSplitFunc_zero_max_counterexample:
  "NoSplitFunc 0 (Some []) True = Inr (0, Some [], None) \<and>
   NoSplitFunc 0 (Some []) True \<noteq> Inr (0, None, None) \<and>
   NoSplitFunc (- 2) (Some ''ab'') True = Inl SliceBoundsOutOfRange"
  by (simp add: NoSplitFunc_def golen_def goSlice_def region_def)

section \<open>Building a split function\<close>

text \<open>
  Claim C8. Building fails, and gives no split function, whenever both patterns are
  non-empty (the error "only one of line_start_pattern or line_end_pattern can be set"),
  and whenever a pattern is non-empty while the encoding is \<open>encoding.Nop\<close> (that error
  when both are set, otherwise "line_start_pattern or line_end_pattern should not be set
  when using nop encoding"). The result is an error value of \<open>Build\<close> itself: no buffer
  is involved.
\<close>

theorem Build_config_errors:
  "(LineEndPattern c \<noteq> [] \<and> LineStartPattern c \<noteq> [] \<longrightarrow>
      Build regexpCompile c enc flushAtEOF pl pt maxLogSize = Inl OnlyOnePatternError \<and>
      getSplitFunc regexpCompile c enc flushAtEOF maxLogSize pl pt = Inl OnlyOnePatternError) \<and>
   (enc = Nop \<and> (LineEndPattern c \<noteq> [] \<or> LineStartPattern c \<noteq> []) \<longrightarrow>
      Build regexpCompile c enc flushAtEOF pl pt maxLogSize
        = Inl (if LineEndPattern c \<noteq> [] \<and> LineStartPattern c \<noteq> []
               then OnlyOnePatternError else PatternWithNopEncodingError) \<and>
      getSplitFunc regexpCompile c enc flushAtEOF maxLogSize pl pt
        = Inl (if LineEndPattern c \<noteq> [] \<and> LineStartPattern c \<noteq> []
               then OnlyOnePatternError else PatternWithNopEncodingError))"
  by (simp add: Build_def getSplitFunc_def Let_def)

theorem Build_config_errors_witness:
  "Build (\<lambda>p. Inr (literalRegexp p)) \<lparr>LineStartPattern = ''START'', LineEndPattern = ''END''\<rparr>
     (Charset (\<lambda>src. (src, None))) True False False 1024 = Inl OnlyOnePatternError \<and>
   Build (\<lambda>p. Inr (literalRegexp p)) \<lparr>LineStartPattern = ''START'', LineEndPattern = []\<rparr>
     Nop True False False 1024 = Inl PatternWithNopEncodingError \<and>
   getSplitFunc (\<lambda>p. Inr (literalRegexp p)) \<lparr>LineStartPattern = [], LineEndPattern = ''END''\<rparr>
     Nop True 1024 False False = Inl PatternWithNopEncodingError"
  using Build_config_errors [of "\<lparr>LineStartPattern = ''START'', LineEndPattern = ''END''\<rparr>"
      "\<lambda>p. Inr (literalRegexp p)" "Charset (\<lambda>src. (src, None))" True False False 1024]
    Build_config_errors [of "\<lparr>LineStartPattern = ''START'', LineEndPattern = []\<rparr>"
      "\<lambda>p. Inr (literalRegexp p)" Nop True False False 1024]
    Build_config_errors [of "\<lparr>LineStartPattern = [], LineEndPattern = ''END''\<rparr>"
      "\<lambda>p. Inr (literalRegexp p)" Nop True False False 1024]
  by simp

text \<open>
  Which split function a successful build returns: \<open>NoSplitFunc\<close> for
  \<open>encoding.Nop\<close>, and otherwise one of the other three, each given the trim function
  selected from the two preferences.
\<close>

lemma getSplitFunc_strategy:
  assumes "getSplitFunc regexpCompile c enc flushAtEOF maxLogSize pl pt = Inr f"
  shows "(if enc = Nop then f = NoSplitFunc maxLogSize
          else if LineEndPattern c = [] \<and> LineStartPattern c = []
          then NewlineSplitFunc enc flushAtEOF (getTrimFunc pl pt) = Inr f
          else if LineEndPattern c \<noteq> []
          then \<exists>re. regexpCompile (''(?m)'' @ LineEndPattern c) = Inr re
                 \<and> f = LineEndSplitFunc re flushAtEOF (getTrimFunc pl pt)
          else \<exists>re. regexpCompile (''(?m)'' @ LineStartPattern c) = Inr re
                 \<and> f = LineStartSplitFunc re flushAtEOF (getTrimFunc pl pt))"
  using assms
  by (auto simp: getSplitFunc_def Let_def split: if_splits sum.splits)

lemma NewlineSplitFunc_Inr:
  assumes "NewlineSplitFunc enc flushAtEOF trimFunc = Inr f"
  shows "f = newlineSplit (fst (encodedNewline enc)) (fst (encodedCarriageReturn enc))
               flushAtEOF trimFunc"
  using assms
  by (auto simp: NewlineSplitFunc_def split: prod.splits option.splits)

section \<open>All four strategies\<close>

text \<open>
  Each split function returns, with a nil error and an advance within the buffer, when
  the regular expression reports offsets within the bytes it searched and the maximum size
  is not negative.
\<close>

lemma LineStartSplitFunc_returns:
  assumes valid: "validRegexp re"
  shows "\<exists>adv tok. LineStartSplitFunc re flushAtEOF trimFunc data atEOF = Inr (adv, tok, None)
           \<and> 0 \<le> adv \<and> adv \<le> golen data"
proof (cases "re (bytesOf data)")
  case None
  then show ?thesis
    using golen_nonneg [of data] by (simp add: LineStartSplitFunc_no_match)
next
  case (Some loc)
  obtain s e where loc: "loc = (s, e)" by (cases loc)
  with Some have m: "re (bytesOf data) = Some (s, e)" by simp
  from validRegexpD [OF valid m] have b: "0 \<le> s" "s \<le> e" "e \<le> golen data"
    by (simp_all add: golen_bytesOf)
  show ?thesis
  proof (cases "s = 0 \<or> trimFunc (region data 0 s) = None")
    case False
    with b m have "LineStartSplitFunc re flushAtEOF trimFunc data atEOF
        = Inr (s, trimFunc (region data 0 s), None)"
      using LineStartSplitFunc_prefix [of re data s e trimFunc flushAtEOF atEOF] by auto
    with b show ?thesis by simp
  next
    case True
    from m b True have eq: "LineStartSplitFunc re flushAtEOF trimFunc data atEOF =
     (if e = golen data then Inr (0, None, None)
      else if atEOF \<and> flushAtEOF then Inr (golen data, trimFunc data, None)
      else (case re (bytesOf (region data (e + 1) (golen data))) of
              None \<Rightarrow> Inr (0, None, None)
            | Some (s2, e2) \<Rightarrow>
                (case goSlice data s (s2 + (e + 1)) of
                   Inl p \<Rightarrow> Inl p
                 | Inr payload \<Rightarrow> Inr (s2 + (e + 1), trimFunc payload, None))))"
      by (rule LineStartSplitFunc_after_prefix [of re data s e trimFunc flushAtEOF atEOF])
    show ?thesis
    proof (cases "e = golen data \<or> (atEOF \<and> flushAtEOF)")
      case True
      with eq golen_nonneg [of data] show ?thesis by auto
    next
      case False
      then have ne: "e \<noteq> golen data" and nf: "\<not> (atEOF \<and> flushAtEOF)" by auto
      let ?rest = "bytesOf (region data (e + 1) (golen data))"
      show ?thesis
      proof (cases "re ?rest")
        case None
        with eq ne nf show ?thesis by (simp add: golen_nonneg)
      next
        case (Some loc2)
        obtain s2 e2 where "loc2 = (s2, e2)" by (cases loc2)
        with Some have m2: "re ?rest = Some (s2, e2)" by simp
        have len: "int (length ?rest) = golen data - (e + 1)"
          using b ne by (simp add: golen_bytesOf golen_region)
        from validRegexpD [OF valid m2] len
        have b2: "0 \<le> s2" "s2 + (e + 1) \<le> golen data" by simp_all
        with b have "goSlice data s (s2 + (e + 1)) = Inr (region data s (s2 + (e + 1)))"
          by (intro goSlice_in_bounds) auto
        with eq ne nf m2 b b2 show ?thesis by simp
      qed
    qed
  qed
qed

lemma LineEndSplitFunc_returns:
  assumes valid: "validRegexp re"
  shows "\<exists>adv tok. LineEndSplitFunc re flushAtEOF trimFunc data atEOF = Inr (adv, tok, None)
           \<and> 0 \<le> adv \<and> adv \<le> golen data"
proof (cases "re (bytesOf data)")
  case None
  then show ?thesis
    using golen_nonneg [of data] by (simp add: LineEndSplitFunc_def)
next
  case (Some loc)
  obtain s e where loc: "loc = (s, e)" by (cases loc)
  with Some have m: "re (bytesOf data) = Some (s, e)" by simp
  from validRegexpD [OF valid m] have b: "0 \<le> s" "s \<le> e" "e \<le> golen data"
    by (simp_all add: golen_bytesOf)
  with m show ?thesis
    by (simp add: LineEndSplitFunc_def goSlice_def)
qed

lemma newlineSplit_returns:
  "\<exists>adv tok. newlineSplit newline carriageReturn flushAtEOF trimFunc data atEOF
       = Inr (adv, tok, None) \<and> 0 \<le> adv \<and> adv \<le> golen data"
proof (cases "0 \<le> bytesIndex (bytesOf data) newline")
  case True
  from bytesIndex_bound [OF True]
  have "bytesIndex (bytesOf data) newline + int (length newline) \<le> golen data"
    by (simp add: golen_bytesOf)
  with True show ?thesis
    by (simp add: newlineSplit_def goSlice_def Let_def golen_nonneg)
next
  case False
  then show ?thesis
    by (simp add: newlineSplit_def Let_def golen_nonneg)
qed

lemma NoSplitFunc_returns:
  assumes "0 \<le> maxLogSize"
  shows "\<exists>adv tok. NoSplitFunc maxLogSize data atEOF = Inr (adv, tok, None)
           \<and> 0 \<le> adv \<and> adv \<le> golen data"
  using assms by (simp add: NoSplitFunc_def goSlice_def golen_nonneg)

text \<open>
  Claim C9, as amended. With a maximum size \<open>maxLogSize \<ge> 0\<close> for No-Split (and a
  regular expression whose \<open>FindIndex\<close> reports offsets within the bytes searched), each
  of the four split functions returns on every buffer and every \<open>atEOF\<close>, and the error
  it returns is nil.
\<close>

theorem split_functions_return_nil_error:
  assumes "validRegexp re" and "0 \<le> maxLogSize"
    and "NewlineSplitFunc enc flushAtEOF trimFunc = Inr newlineFn"
  shows "(\<exists>adv tok. newlineFn data atEOF = Inr (adv, tok, None)) \<and>
         (\<exists>adv tok. LineStartSplitFunc re flushAtEOF trimFunc data atEOF = Inr (adv, tok, None)) \<and>
         (\<exists>adv tok. LineEndSplitFunc re flushAtEOF trimFunc data atEOF = Inr (adv, tok, None)) \<and>
         (\<exists>adv tok. NoSplitFunc maxLogSize data atEOF = Inr (adv, tok, None))"
proof -
  let ?nl = "fst (encodedNewline enc)" and ?cr = "fst (encodedCarriageReturn enc)"
  have "newlineFn = newlineSplit ?nl ?cr flushAtEOF trimFunc"
    using assms(3) by (rule NewlineSplitFunc_Inr)
  then have "\<exists>adv tok. newlineFn data atEOF = Inr (adv, tok, None)"
    using newlineSplit_returns [of ?nl ?cr flushAtEOF trimFunc data atEOF] by blast
  moreover have "\<exists>adv tok. LineStartSplitFunc re flushAtEOF trimFunc data atEOF
      = Inr (adv, tok, None)"
    using LineStartSplitFunc_returns [OF assms(1), of flushAtEOF trimFunc data atEOF] by blast
  moreover have "\<exists>adv tok. LineEndSplitFunc re flushAtEOF trimFunc data atEOF
      = Inr (adv, tok, None)"
    using LineEndSplitFunc_returns [OF assms(1), of flushAtEOF trimFunc data atEOF] by blast
  moreover have "\<exists>adv tok. NoSplitFunc maxLogSize data atEOF = Inr (adv, tok, None)"
    using NoSplitFunc_returns [OF assms(2), of data atEOF] by blast
  ultimately show ?thesis by blast
qed

theorem split_functions_return_nil_error_witness:
  "validRegexp (literalRegexp '';'') \<and> (0::int) \<le> 4 \<and>
   NewlineSplitFunc (Charset (\<lambda>src. (src, None))) True noTrim
     = Inr (newlineSplit [CHR 0x0A] [CHR 0x0D] True noTrim) \<and>
   (\<exists>adv tok. newlineSplit [CHR 0x0A] [CHR 0x0D] True noTrim (Some ''a;b'') True
       = Inr (adv, tok, None)) \<and>
   (\<exists>adv tok. LineStartSplitFunc (literalRegexp '';'') True noTrim (Some ''a;b'') True
       = Inr (adv, tok, None)) \<and>
   (\<exists>adv tok. LineEndSplitFunc (literalRegexp '';'') True noTrim (Some ''a;b'') True
       = Inr (adv, tok, None)) \<and>
   (\<exists>adv tok. NoSplitFunc 4 (Some ''a;b'') True = Inr (adv, tok, None))"
proof -
  have b: "NewlineSplitFunc (Charset (\<lambda>src. (src, None))) True noTrim
     = Inr (newlineSplit [CHR 0x0A] [CHR 0x0D] True noTrim)"
    by (simp add: NewlineSplitFunc_def encodedNewline_def encodedCarriageReturn_def
        encoderTransform_def)
  have z: "(0::int) \<le> 4" by simp
  show ?thesis
    using split_functions_return_nil_error [OF literalRegexp_valid z b, of "Some ''a;b''" True]
      literalRegexp_valid [of "'';''"] b
    by simp
qed

text \<open>
  Claim C9 as stated, for every compiled split function, fails: \<open>NoSplitFunc\<close> built
  with a negative maximum size evaluates \<open>data[:maxLogSize]\<close> on every call, which
  panics.
\<close>

theorem NoSplitFunc_negative_max_counterexample:
  "NoSplitFunc (- 1) (Some ''a'') False = Inl SliceBoundsOutOfRange"
  by (simp add: NoSplitFunc_def golen_def goSlice_def)

text \<open>
  Claim C10. With a maximum size \<open>maxLogSize \<ge> 0\<close> for No-Split (and a regular
  expression whose \<open>FindIndex\<close> reports offsets within the bytes searched), each of the
  four split functions returns, on every buffer and every \<open>atEOF\<close>, an advance with
  \<open>0 \<le> advance \<le> len(data)\<close>.
\<close>

theorem advance_within_buffer:
  assumes "validRegexp re" and "0 \<le> maxLogSize"
    and "NewlineSplitFunc enc flushAtEOF trimFunc = Inr newlineFn"
  shows "(\<exists>adv tok err. newlineFn data atEOF = Inr (adv, tok, err)
            \<and> 0 \<le> adv \<and> adv \<le> golen data) \<and>
         (\<exists>adv tok err. LineStartSplitFunc re flushAtEOF trimFunc data atEOF = Inr (adv, tok, err)
            \<and> 0 \<le> adv \<and> adv \<le> golen data) \<and>
         (\<exists>adv tok err. LineEndSplitFunc re flushAtEOF trimFunc data atEOF = Inr (adv, tok, err)
            \<and> 0 \<le> adv \<and> adv \<le> golen data) \<and>
         (\<exists>adv tok err. NoSplitFunc maxLogSize data atEOF = Inr (adv, tok, err)
            \<and> 0 \<le> adv \<and> adv \<le> golen data)"
proof -
  let ?nl = "fst (encodedNewline enc)" and ?cr = "fst (encodedCarriageReturn enc)"
  have "newlineFn = newlineSplit ?nl ?cr flushAtEOF trimFunc"
    using assms(3) by (rule NewlineSplitFunc_Inr)
  then have "\<exists>adv tok err. newlineFn data atEOF = Inr (adv, tok, err)
      \<and> 0 \<le> adv \<and> adv \<le> golen data"
    using newlineSplit_returns [of ?nl ?cr flushAtEOF trimFunc data atEOF] by blast
  moreover have "\<exists>adv tok err. LineStartSplitFunc re flushAtEOF trimFunc data atEOF
      = Inr (adv, tok, err) \<and> 0 \<le> adv \<and> adv \<le> golen data"
    using LineStartSplitFunc_returns [OF assms(1), of flushAtEOF trimFunc data atEOF] by blast
  moreover have "\<exists>adv tok err. LineEndSplitFunc re flushAtEOF trimFunc data atEOF
      = Inr (adv, tok, err) \<and> 0 \<le> adv \<and> adv \<le> golen data"
    using LineEndSplitFunc_returns [OF assms(1), of flushAtEOF trimFunc data atEOF] by blast
  moreover have "\<exists>adv tok err. NoSplitFunc maxLogSize data atEOF = Inr (adv, tok, err)
      \<and> 0 \<le> adv \<and> adv \<le> golen data"
    using NoSplitFunc_returns [OF assms(2), of data atEOF] by blast
  ultimately show ?thesis by blast
qed

theorem advance_within_buffer_witness:
  "validRegexp (literalRegexp ''START'') \<and> (0::int) \<le> 0 \<and>
   NewlineSplitFunc (Charset (\<lambda>src. (src, None))) False trimWhitespacesFunc
     = Inr (newlineSplit [CHR 0x0A] [CHR 0x0D] False trimWhitespacesFunc) \<and>
   (\<exists>adv tok err. newlineSplit [CHR 0x0A] [CHR 0x0D] False trimWhitespacesFunc
        (Some ''START a START b'') False = Inr (adv, tok, err) \<and> 0 \<le> adv \<and> adv \<le> 15) \<and>
   (\<exists>adv tok err. LineStartSplitFunc (literalRegexp ''START'') False trimWhitespacesFunc
        (Some ''START a START b'') False = Inr (adv, tok, err) \<and> 0 \<le> adv \<and> adv \<le> 15) \<and>
   (\<exists>adv tok err. LineEndSplitFunc (literalRegexp ''START'') False trimWhitespacesFunc
        (Some ''START a START b'') False = Inr (adv, tok, err) \<and> 0 \<le> adv \<and> adv \<le> 15) \<and>
   (\<exists>adv tok err. NoSplitFunc 0 (Some ''START a START b'') False = Inr (adv, tok, err)
        \<and> 0 \<le> adv \<and> adv \<le> 15)"
proof -
  have b: "NewlineSplitFunc (Charset (\<lambda>src. (src, None))) False trimWhitespacesFunc
     = Inr (newlineSplit [CHR 0x0A] [CHR 0x0D] False trimWhitespacesFunc)"
    by (simp add: NewlineSplitFunc_def encodedNewline_def encodedCarriageReturn_def
        encoderTransform_def)
  have z: "(0::int) \<le> 0" by simp
  have l: "golen (Some ''START a START b'') = 15" by (simp add: golen_def)
  show ?thesis
    using advance_within_buffer [OF literalRegexp_valid z b, of "Some ''START a START b''" False]
      literalRegexp_valid [of "''START''"] b
    by (simp add: l)
qed

text \<open>
  Where each emitted token comes from. With a trim function that \<open>getTrimFunc\<close>
  selects, a token of \<open>LineStartSplitFunc\<close> is the trimmed \<open>data[:advance]\<close>: the
  prefix before the first match, the whole buffer in a flush, or the bytes up to the
  second match when the first match starts at offset 0 (a first match further in always
  returns the prefix). The same holds for \<open>LineEndSplitFunc\<close>. A token of the newline
  function is the trimmed line before the first newline sequence without one trailing
  carriage-return sequence, or the trimmed buffer when there is no newline sequence.
  \<open>NoSplitFunc\<close> returns \<open>data[:advance]\<close> as it is.
\<close>

lemma LineStartSplitFunc_token_exact:
  assumes "LineStartSplitFunc re flushAtEOF (getTrimFunc pl pt) data atEOF
             = Inr (advance, Some tok, err)"
  shows "getTrimFunc pl pt (region data 0 advance) = Some tok"
proof (cases "re (bytesOf data)")
  case None
  with assms have "advance = golen data" and "getTrimFunc pl pt data = Some tok"
    by (auto simp: LineStartSplitFunc_def split: if_splits)
  then show ?thesis by (simp add: region_whole)
next
  case (Some loc)
  obtain s e where "loc = (s, e)" by (cases loc)
  with Some have m: "re (bytesOf data) = Some (s, e)" by simp
  show ?thesis
  proof (cases "s = 0")
    case True
    with assms m consider
        (flush) "advance = golen data" "getTrimFunc pl pt data = Some tok"
      | (second) "getTrimFunc pl pt (region data 0 advance) = Some tok"
      by (auto simp: LineStartSplitFunc_def goSlice_def Let_def
          split: if_splits option.splits sum.splits prod.splits)
    then show ?thesis
      by cases (simp_all add: region_whole)
  next
    case False
    have bounds: "0 < s \<and> s \<le> golen data"
    proof (rule ccontr)
      assume "\<not> (0 < s \<and> s \<le> golen data)"
      with False have "goSlice data 0 s = Inl SliceBoundsOutOfRange"
        by (auto simp: goSlice_def)
      with m False have "LineStartSplitFunc re flushAtEOF (getTrimFunc pl pt) data atEOF
          = Inl SliceBoundsOutOfRange"
        by (simp add: LineStartSplitFunc_def)
      with assms show False by simp
    qed
    with m have "LineStartSplitFunc re flushAtEOF (getTrimFunc pl pt) data atEOF
        = Inr (s, getTrimFunc pl pt (region data 0 s), None)"
      using LineStartSplitFunc_prefix_always_returned [of re data s e flushAtEOF pl pt atEOF]
      by simp
    with assms show ?thesis by auto
  qed
qed

lemma LineEndSplitFunc_token_payload:
  assumes "LineEndSplitFunc re flushAtEOF tf data atEOF = Inr (advance, Some tok, err)"
  shows "0 \<le> advance \<and> advance \<le> golen data \<and> tf (region data 0 advance) = Some tok"
  using assms
  by (auto simp: LineEndSplitFunc_def goSlice_def region_whole golen_nonneg
      split: if_splits option.splits sum.splits prod.splits)

lemma newlineSplit_token_exact:
  assumes "newlineSplit newline carriageReturn flushAtEOF tf data atEOF
             = Inr (advance, Some tok, err)"
  shows "if 0 \<le> bytesIndex (bytesOf data) newline
         then advance = bytesIndex (bytesOf data) newline + int (length newline) \<and>
              tf (bytesTrimSuffix (region data 0 (bytesIndex (bytesOf data) newline))
                    carriageReturn) = Some tok
         else advance = golen data \<and> tf data = Some tok"
  using assms
  by (auto simp: newlineSplit_def goSlice_def Let_def split: if_splits)

lemma NoSplitFunc_token_raw:
  assumes "NoSplitFunc maxLogSize data atEOF = Inr (advance, Some tok, err)"
  shows "region data 0 advance = Some tok"
  using assms
  by (auto simp: NoSplitFunc_def goSlice_def region_whole split: if_splits)

text \<open>
  Claim C3, as amended. For every split function \<open>getSplitFunc\<close> builds and every call
  that emits a token: for the Newline-Delimited, Pattern-Start-Delimited and
  Pattern-End-Delimited strategies the token equals the trim function selected from
  \<open>(preserveLeadingWhitespaces, preserveTrailingWhitespaces)\<close> applied to the delimited
  payload; the No-Split strategy (built for \<open>encoding.Nop\<close>) is given no trim function
  and its token is the payload untrimmed. The payload is \<open>data[:advance]\<close> for
  Pattern-Start, Pattern-End and No-Split. For Newline it is \<open>data[:i]\<close> without one
  trailing carriage-return sequence, where \<open>i\<close> is the offset \<open>bytes.Index\<close> finds
  for the newline sequence and \<open>advance = i + len(newline)\<close>, or the whole buffer with
  \<open>advance = len(data)\<close> when there is no newline sequence.
\<close>

theorem emitted_token_is_trimmed_payload:
  assumes "getSplitFunc regexpCompile c enc flushAtEOF maxLogSize pl pt = Inr f"
    and "f data atEOF = Inr (advance, Some tok, err)"
  shows "if enc = Nop then region data 0 advance = Some tok
         else if LineEndPattern c = [] \<and> LineStartPattern c = []
         then (if 0 \<le> bytesIndex (bytesOf data) (fst (encodedNewline enc))
               then advance = bytesIndex (bytesOf data) (fst (encodedNewline enc))
                                + int (length (fst (encodedNewline enc))) \<and>
                    getTrimFunc pl pt
                      (bytesTrimSuffix
                         (region data 0 (bytesIndex (bytesOf data) (fst (encodedNewline enc))))
                         (fst (encodedCarriageReturn enc))) = Some tok
               else advance = golen data \<and> getTrimFunc pl pt data = Some tok)
         else getTrimFunc pl pt (region data 0 advance) = Some tok"
proof -
  note strategy = getSplitFunc_strategy [OF assms(1)]
  show ?thesis
  proof (cases "enc = Nop")
    case True
    with strategy have "f = NoSplitFunc maxLogSize" by simp
    with assms(2) True show ?thesis
      using NoSplitFunc_token_raw [of maxLogSize data atEOF advance tok err] by simp
  next
    case notNop: False
    show ?thesis
    proof (cases "LineEndPattern c = [] \<and> LineStartPattern c = []")
      case True
      with strategy notNop
      have "NewlineSplitFunc enc flushAtEOF (getTrimFunc pl pt) = Inr f" by simp
      then have "f = newlineSplit (fst (encodedNewline enc)) (fst (encodedCarriageReturn enc))
          flushAtEOF (getTrimFunc pl pt)"
        by (rule NewlineSplitFunc_Inr)
      with assms(2) True notNop show ?thesis
        using newlineSplit_token_exact [of "fst (encodedNewline enc)"
            "fst (encodedCarriageReturn enc)" flushAtEOF "getTrimFunc pl pt" data atEOF
            advance tok err]
        by simp
    next
      case patterns: False
      show ?thesis
      proof (cases "LineEndPattern c \<noteq> []")
        case True
        with strategy notNop patterns obtain re
          where "f = LineEndSplitFunc re flushAtEOF (getTrimFunc pl pt)"
          by auto
        with assms(2) notNop patterns show ?thesis
          using LineEndSplitFunc_token_payload [of re flushAtEOF "getTrimFunc pl pt" data atEOF
              advance tok err]
          by auto
      next
        case False
        with strategy notNop patterns obtain re
          where "f = LineStartSplitFunc re flushAtEOF (getTrimFunc pl pt)"
          by auto
        with assms(2) notNop patterns show ?thesis
          using LineStartSplitFunc_token_exact [of re flushAtEOF pl pt data atEOF advance tok err]
          by auto
      qed
    qed
  qed
qed

text \<open>
  The witness builds each of the four strategies from a configuration. For Pattern-Start
  the buffer \<open>"xx START a"\<close> has its first match at offset 3, and the token is the
  prefix \<open>"xx"\<close>.
\<close>

theorem emitted_token_is_trimmed_payload_witness:
  "getSplitFunc literalCompile \<lparr>LineStartPattern = ''START'', LineEndPattern = []\<rparr>
     (Charset (\<lambda>src. (src, None))) False 1024 False False
     = Inr (LineStartSplitFunc (literalRegexp ''START'') False (getTrimFunc False False)) \<and>
   LineStartSplitFunc (literalRegexp ''START'') False (getTrimFunc False False)
     (Some ''xx START a'') False = Inr (3, Some ''xx'', None) \<and>
   getTrimFunc False False (region (Some ''xx START a'') 0 3) = Some ''xx'' \<and>
   getSplitFunc literalCompile \<lparr>LineStartPattern = [], LineEndPattern = '';''\<rparr>
     (Charset (\<lambda>src. (src, None))) False 1024 False False
     = Inr (LineEndSplitFunc (literalRegexp '';'') False (getTrimFunc False False)) \<and>
   LineEndSplitFunc (literalRegexp '';'') False (getTrimFunc False False)
     (Some '' a;b'') True = Inr (3, Some ''a;'', None) \<and>
   getTrimFunc False False (region (Some '' a;b'') 0 3) = Some ''a;'' \<and>
   getSplitFunc literalCompile NewMultilineConfig
     (Charset (\<lambda>src. (src, None))) False 1024 False False
     = Inr (newlineSplit [CHR 0x0A] [CHR 0x0D] False (getTrimFunc False False)) \<and>
   newlineSplit [CHR 0x0A] [CHR 0x0D] False (getTrimFunc False False)
     (Some [CHR '' '', CHR ''a'', CHR '' '', CHR 0x0D, CHR 0x0A, CHR ''b'']) False
     = Inr (5, Some ''a'', None) \<and>
   getTrimFunc False False
     (bytesTrimSuffix
        (region (Some [CHR '' '', CHR ''a'', CHR '' '', CHR 0x0D, CHR 0x0A, CHR ''b'']) 0 4)
        [CHR 0x0D]) = Some ''a'' \<and>
   getSplitFunc literalCompile NewMultilineConfig Nop False 3 False False
     = Inr (NoSplitFunc 3) \<and>
   NoSplitFunc 3 (Some '' a '') False = Inr (3, Some '' a '', None) \<and>
   region (Some '' a '') 0 3 = Some '' a ''"
proof -
  let ?utf8 = "Charset (\<lambda>src. (src, None))"
  let ?nd = "Some [CHR '' '', CHR ''a'', CHR '' '', CHR 0x0D, CHR 0x0A, CHR ''b'']"
  have b1: "getSplitFunc literalCompile \<lparr>LineStartPattern = ''START'', LineEndPattern = []\<rparr>
      ?utf8 False 1024 False False
      = Inr (LineStartSplitFunc (literalRegexp ''START'') False (getTrimFunc False False))"
    by (simp add: getSplitFunc_def literalCompile_def)
  have p1: "LineStartSplitFunc (literalRegexp ''START'') False (getTrimFunc False False)
     (Some ''xx START a'') False = Inr (3, Some ''xx'', None)"
    by (simp add: LineStartSplitFunc_def literalRegexp_def getTrimFunc_def trimWhitespaces_Some
        whitespaceCutset_def goSlice_def region_def golen_def bytesOf_def)
  have b2: "getSplitFunc literalCompile \<lparr>LineStartPattern = [], LineEndPattern = '';''\<rparr>
      ?utf8 False 1024 False False
      = Inr (LineEndSplitFunc (literalRegexp '';'') False (getTrimFunc False False))"
    by (simp add: getSplitFunc_def literalCompile_def)
  have p2: "LineEndSplitFunc (literalRegexp '';'') False (getTrimFunc False False)
     (Some '' a;b'') True = Inr (3, Some ''a;'', None)"
    by (simp add: LineEndSplitFunc_def literalRegexp_def getTrimFunc_def trimWhitespaces_Some
        whitespaceCutset_def goSlice_def region_def golen_def bytesOf_def)
  have b3: "getSplitFunc literalCompile NewMultilineConfig ?utf8 False 1024 False False
      = Inr (newlineSplit [CHR 0x0A] [CHR 0x0D] False (getTrimFunc False False))"
    by (simp add: getSplitFunc_def NewMultilineConfig_def NewlineSplitFunc_def
        encodedNewline_def encodedCarriageReturn_def encoderTransform_def)
  have p3: "newlineSplit [CHR 0x0A] [CHR 0x0D] False (getTrimFunc False False) ?nd False
     = Inr (5, Some ''a'', None)"
    by (simp add: newlineSplit_def bytesTrimSuffix_def getTrimFunc_def trimWhitespaces_Some
        whitespaceCutset_def goSlice_def region_def golen_def bytesOf_def)
  have b4: "getSplitFunc literalCompile NewMultilineConfig Nop False 3 False False
      = Inr (NoSplitFunc 3)"
    by (simp add: getSplitFunc_def NewMultilineConfig_def)
  have p4: "NoSplitFunc 3 (Some '' a '') False = Inr (3, Some '' a '', None)"
    by (simp add: NoSplitFunc_def goSlice_def region_def golen_def)
  have c1: "getTrimFunc False False (region (Some ''xx START a'') 0 3) = Some ''xx''"
    using b1 p1
      emitted_token_is_trimmed_payload [of literalCompile
        "\<lparr>LineStartPattern = ''START'', LineEndPattern = []\<rparr>" ?utf8 False 1024 False False
        "LineStartSplitFunc (literalRegexp ''START'') False (getTrimFunc False False)"
        "Some ''xx START a''" False 3 "''xx''" None]
    by simp
  have c2: "getTrimFunc False False (region (Some '' a;b'') 0 3) = Some ''a;''"
    using b2 p2
      emitted_token_is_trimmed_payload [of literalCompile
        "\<lparr>LineStartPattern = [], LineEndPattern = '';''\<rparr>" ?utf8 False 1024 False False
        "LineEndSplitFunc (literalRegexp '';'') False (getTrimFunc False False)"
        "Some '' a;b''" True 3 "''a;''" None]
    by simp
  have idx: "bytesIndex (bytesOf ?nd) [CHR 0x0A] = 4"
    by (simp add: bytesOf_def)
  have c3: "getTrimFunc False False (bytesTrimSuffix (region ?nd 0 4) [CHR 0x0D]) = Some ''a''"
    using b3 p3 idx
      emitted_token_is_trimmed_payload [of literalCompile NewMultilineConfig ?utf8 False 1024
        False False "newlineSplit [CHR 0x0A] [CHR 0x0D] False (getTrimFunc False False)"
        ?nd False 5 "''a''" None]
    by (simp add: NewMultilineConfig_def encodedNewline_def encodedCarriageReturn_def
        encoderTransform_def)
  have c4: "region (Some '' a '') 0 3 = Some '' a ''"
    using b4 p4
      emitted_token_is_trimmed_payload [of literalCompile NewMultilineConfig Nop False 3
        False False "NoSplitFunc 3" "Some '' a ''" False 3 "'' a ''" None]
    by simp
  from b1 p1 c1 b2 p2 c2 b3 p3 c3 b4 p4 c4 show ?thesis
    by blast
qed

text \<open>
  Claim C3 as stated, for every strategy including No-Split, fails: built for
  \<open>encoding.Nop\<close> with both preferences false, the split function is \<open>NoSplitFunc\<close>,
  which returns the buffer \<open>" a "\<close> as it is, while the selected trim function would
  give \<open>"a"\<close>.
\<close>

theorem NoSplitFunc_untrimmed_counterexample:
  "getSplitFunc (\<lambda>p. Inr (literalRegexp p)) NewMultilineConfig Nop False 3 False False = Inr (NoSplitFunc 3) \<and>
   NoSplitFunc 3 (Some '' a '') False = Inr (3, Some '' a '', None) \<and>
   getTrimFunc False False (Some '' a '') = Some ''a''"
  by (simp add: getSplitFunc_def NewMultilineConfig_def NoSplitFunc_def goSlice_def region_def
      golen_def getTrimFunc_def trimWhitespaces_Some whitespaceCutset_def bytesOf_def)

end
